theory Spec2Isabelle
  imports Complex_Main "HOL-Library.Sublist"
begin

section \<open>Values\<close>

text \<open>
  The script \<^verbatim>\<open>pdf_editor.py\<close> edits a PDF through PyPDF2 and reportlab. Python
  \<^verbatim>\<open>str\<close> values are modelled as \<^typ>\<open>string\<close>, one \<^typ>\<open>char\<close> per code point
  (so the model covers code points below 256), and \<^verbatim>\<open>bytes\<close> as lists of
  \<^typ>\<open>char\<close>, which are 8-bit. Lengths in points are rational numbers: the rounding
  of Python's \<^verbatim>\<open>float\<close> is not modelled.
\<close>

type_synonym bytes = "char list"

text \<open>The exceptions that the script and the library calls it makes can raise.\<close>

datatype py_error =
    KeyError string
  | ValueError string
  | AttributeError string
  | IndexError string
  | PdfReadError string
  | OSError string

text \<open>
  The constructors carry what \<^verbatim>\<open>str(e)\<close> shows. The texts given to the exceptions of
  library calls below are indicative: the properties proved are about which call raises
  and where the exception is handled.
\<close>

text \<open>A string between single quotes, as \<^verbatim>\<open>repr\<close> shows a plain string.\<close>

definition quoted :: "string \<Rightarrow> string" where
  "quoted s = [CHR 0x27] @ s @ [CHR 0x27]"

text \<open>\<^verbatim>\<open>str(e)\<close>, as the handlers print it; a \<^verbatim>\<open>KeyError\<close> prints the key's repr.\<close>

fun error_str :: "py_error \<Rightarrow> string" where
  "error_str (KeyError k) = quoted k"
| "error_str (ValueError m) = m"
| "error_str (AttributeError m) = m"
| "error_str (IndexError m) = m"
| "error_str (PdfReadError m) = m"
| "error_str (OSError m) = m"

section \<open>Documents\<close>

text \<open>
  What a page's \<^verbatim>\<open>/Contents\<close> entry resolves to. PyPDF2 reads a stream without a
  \<^verbatim>\<open>/Filter\<close> as a \<^verbatim>\<open>DecodedStreamObject\<close> and one with a filter as an
  \<^verbatim>\<open>EncodedStreamObject\<close> (the bytes kept here are the decoded data that
  \<^verbatim>\<open>get_data()\<close> returns); the entry may also be an array of streams.
\<close>

datatype pdf_object =
    DecodedStreamObject bytes
  | EncodedStreamObject bytes
  | ArrayObject "bytes list"
  | NullObject

text \<open>
  The \<^verbatim>\<open>/Contents\<close> key of a page dictionary: missing, present with a reference that
  resolves to \<^verbatim>\<open>None\<close>, or present with an object.
\<close>

datatype contents_entry =
    NoKey
  | ResolvesToNone
  | Resolves pdf_object

text \<open>One \<^verbatim>\<open>drawImage\<close> operation recorded on a reportlab canvas.\<close>

record drawing =
  drw_image :: string
  drw_x :: rat
  drw_y :: rat
  drw_width :: rat
  drw_height :: rat

text \<open>A page emitted by a reportlab canvas: its size and the operations drawn on it.\<close>

record overlay =
  ov_width :: rat
  ov_height :: rat
  ov_code :: "drawing list"

text \<open>
  A page of a document as the script sees it: the mediabox size, the \<^verbatim>\<open>/Rotate\<close>
  entry (0 when absent), the \<^verbatim>\<open>/Contents\<close> entry, and the pages merged on top of it by
  \<^verbatim>\<open>merge_page\<close>, the latest last.
\<close>

record page =
  mediabox_width :: rat
  mediabox_height :: rat
  page_rotation :: int
  contents :: contents_entry
  merged :: "overlay list"

type_synonym document = "page list"

section \<open>The file system\<close>

datatype stored_file =
    PdfFile document
  | RasterImage
  | EmptyFile
  | OtherFile

text \<open>
  The files by path, and the paths that \<^verbatim>\<open>open(path, "wb")\<close> can open.
\<close>

record world =
  files :: "string \<Rightarrow> stored_file option"
  can_create :: "string \<Rightarrow> bool"

text \<open>\<^verbatim>\<open>Path(p).exists()\<close>\<close>

definition path_exists :: "world \<Rightarrow> string \<Rightarrow> bool" where
  "path_exists w p = (files w p \<noteq> None)"

text \<open>\<^verbatim>\<open>PdfReader(path)\<close>: the pages of the document, or the error of the read.\<close>

definition PdfReader :: "world \<Rightarrow> string \<Rightarrow> py_error + document" where
  "PdfReader w pdf_path =
     (case files w pdf_path of
        None \<Rightarrow> Inl (OSError (''No such file or directory: '' @ pdf_path))
      | Some (PdfFile doc) \<Rightarrow> Inr doc
      | Some _ \<Rightarrow> Inl (PdfReadError ''EOF marker not found''))"

section \<open>Rotation\<close>

text \<open>
  \<^verbatim>\<open>page.rotate(angle)\<close> of PyPDF2 raises unless the angle is a multiple of 90 and
  otherwise adds it to the page's \<^verbatim>\<open>/Rotate\<close> entry.
\<close>

definition page_rotate :: "int \<Rightarrow> page \<Rightarrow> py_error + page" where
  "page_rotate angle p =
     (if angle mod 90 \<noteq> 0 then Inl (ValueError ''Rotation angle must be a multiple of 90'')
      else Inr (p\<lparr>page_rotation := page_rotation p + angle\<rparr>))"

text \<open>
  The loop of \<^verbatim>\<open>rotate_pages\<close> from index \<open>page_num\<close> on; the result is the list of
  pages added to the writer.
\<close>

fun rotate_loop :: "(int \<Rightarrow> int option) \<Rightarrow> nat \<Rightarrow> page list \<Rightarrow> py_error + page list" where
  "rotate_loop rotations page_num [] = Inr []"
| "rotate_loop rotations page_num (p # rest) =
     (case (case rotations (int page_num + 1) of
              None \<Rightarrow> Inr p
            | Some angle \<Rightarrow> page_rotate angle p) of
        Inl e \<Rightarrow> Inl e
      | Inr p' \<Rightarrow>
          (case rotate_loop rotations (Suc page_num) rest of
             Inl e \<Rightarrow> Inl e
           | Inr out \<Rightarrow> Inr (p' # out)))"

definition rotate_pages ::
  "world \<Rightarrow> string \<Rightarrow> (int \<Rightarrow> int option) \<Rightarrow> py_error + document" where
  "rotate_pages w pdf_path rotations =
     (case PdfReader w pdf_path of
        Inl e \<Rightarrow> Inl e
      | Inr reader_pages \<Rightarrow> rotate_loop rotations 0 reader_pages)"


section \<open>Text substitution\<close>

text \<open>
  \<^verbatim>\<open>s.encode('utf-8')\<close> for code points below 256: one byte below 128, two bytes
  from there on.
\<close>

definition utf8_encode :: "string \<Rightarrow> bytes" where
  "utf8_encode s =
     concat (map (\<lambda>c. if (of_char c :: nat) < 128 then [c]
                        else [char_of (192 + (of_char c :: nat) div 64),
                              char_of (128 + (of_char c :: nat) mod 64)]) s)"

text \<open>
  \<^verbatim>\<open>bytes.replace(old, new)\<close> for a non-empty \<open>old\<close>: the occurrences are found
  from the left, and the search goes on after each occurrence replaced.
\<close>

function replace_from :: "bytes \<Rightarrow> bytes \<Rightarrow> bytes \<Rightarrow> bytes" where
  "replace_from old new s =
     (if old \<noteq> [] \<and> prefix old s then new @ replace_from old new (drop (length old) s)
      else (case s of [] \<Rightarrow> [] | c # cs \<Rightarrow> c # replace_from old new cs))"
  by pat_completeness auto
termination
  by (relation "measure (\<lambda>(old, new, s). length s)") (auto simp: prefix_def)

declare replace_from.simps [simp del]

text \<open>
  \<^verbatim>\<open>bytes.replace\<close>: an empty \<open>old\<close> matches before every byte and at the end.
\<close>

definition bytes_replace :: "bytes \<Rightarrow> bytes \<Rightarrow> bytes \<Rightarrow> bytes" where
  "bytes_replace s old new =
     (if old = [] then new @ concat (map (\<lambda>c. c # new) s) else replace_from old new s)"

text \<open>
  \<^verbatim>\<open>page["/Contents"]\<close>: the page is a dictionary, and subscripting it with a key
  it does not hold raises \<^verbatim>\<open>KeyError\<close>; a held entry is resolved, to \<^verbatim>\<open>None\<close> or to
  an object.
\<close>

definition page_getitem_contents :: "page \<Rightarrow> py_error + pdf_object option" where
  "page_getitem_contents p =
     (case contents p of
        NoKey \<Rightarrow> Inl (KeyError ''/Contents'')
      | ResolvesToNone \<Rightarrow> Inr None
      | Resolves obj \<Rightarrow> Inr (Some obj))"

text \<open>The error of using an attribute that an object does not have.\<close>

definition no_attribute :: "string \<Rightarrow> string \<Rightarrow> py_error + 'a" where
  "no_attribute cls name =
     Inl (AttributeError (quoted cls @ '' object has no attribute '' @ quoted name))"

text \<open>\<^verbatim>\<open>obj.get_data()\<close>: only stream objects have the method.\<close>

definition get_data :: "pdf_object \<Rightarrow> py_error + bytes" where
  "get_data obj =
     (case obj of
        DecodedStreamObject b \<Rightarrow> Inr b
      | EncodedStreamObject b \<Rightarrow> Inr b
      | ArrayObject _ \<Rightarrow> no_attribute ''ArrayObject'' ''get_data''
      | NullObject \<Rightarrow> no_attribute ''NullObject'' ''get_data'')"

text \<open>
  \<^verbatim>\<open>obj.set_data(data)\<close>: PyPDF2 stores the data of a stream without a filter and
  refuses to re-encode a filtered one.
\<close>

definition set_data :: "pdf_object \<Rightarrow> bytes \<Rightarrow> py_error + pdf_object" where
  "set_data obj data =
     (case obj of
        DecodedStreamObject _ \<Rightarrow> Inr (DecodedStreamObject data)
      | EncodedStreamObject _ \<Rightarrow>
          Inl (PdfReadError ''Creating EncodedStreamObject is not currently supported'')
      | ArrayObject _ \<Rightarrow> no_attribute ''ArrayObject'' ''set_data''
      | NullObject \<Rightarrow> no_attribute ''NullObject'' ''set_data'')"

text \<open>The body of the loop of \<^verbatim>\<open>replace_text_in_pdf\<close> for one page.\<close>

definition replace_in_page :: "string \<Rightarrow> string \<Rightarrow> page \<Rightarrow> py_error + page" where
  "replace_in_page old_text new_text p =
     (case page_getitem_contents p of
        Inl e \<Rightarrow> Inl e
      | Inr None \<Rightarrow> Inr p
      | Inr (Some obj) \<Rightarrow>
          (case get_data obj of
             Inl e \<Rightarrow> Inl e
           | Inr content \<Rightarrow>
               (let modified_content =
                      bytes_replace content (utf8_encode old_text) (utf8_encode new_text)
                in case set_data obj modified_content of
                     Inl e \<Rightarrow> Inl e
                   | Inr obj' \<Rightarrow> Inr (p\<lparr>contents := Resolves obj'\<rparr>))))"

fun replace_loop :: "string \<Rightarrow> string \<Rightarrow> page list \<Rightarrow> py_error + page list" where
  "replace_loop old_text new_text [] = Inr []"
| "replace_loop old_text new_text (p # rest) =
     (case replace_in_page old_text new_text p of
        Inl e \<Rightarrow> Inl e
      | Inr p' \<Rightarrow>
          (case replace_loop old_text new_text rest of
             Inl e \<Rightarrow> Inl e
           | Inr out \<Rightarrow> Inr (p' # out)))"

definition replace_text_in_pdf ::
  "world \<Rightarrow> string \<Rightarrow> string \<Rightarrow> string \<Rightarrow> py_error + document" where
  "replace_text_in_pdf w pdf_path old_text new_text =
     (case PdfReader w pdf_path of
        Inl e \<Rightarrow> Inl e
      | Inr reader_pages \<Rightarrow> replace_loop old_text new_text reader_pages)"

text \<open>The number of positions of \<open>s\<close> at which \<open>pat\<close> occurs.\<close>

fun occurrences :: "bytes \<Rightarrow> bytes \<Rightarrow> nat" where
  "occurrences pat [] = 0"
| "occurrences pat (c # cs) = (if prefix pat (c # cs) then 1 else 0) + occurrences pat cs"

section \<open>Footer image\<close>

text \<open>
  A reportlab canvas: the page size, the operations of the page being drawn, and the
  pages already emitted.
\<close>

record canvas =
  cv_pagesize :: "rat \<times> rat"
  cv_code :: "drawing list"
  cv_pages :: "overlay list"

definition Canvas :: "rat \<times> rat \<Rightarrow> canvas" where
  "Canvas pagesize = \<lparr>cv_pagesize = pagesize, cv_code = [], cv_pages = []\<rparr>"

text \<open>
  \<^verbatim>\<open>c.drawImage(img, x, y, width=, height=)\<close> loads the image file before it
  records anything, and raises when the file is not an image it can read.
\<close>

definition drawImage ::
  "world \<Rightarrow> canvas \<Rightarrow> string \<Rightarrow> rat \<Rightarrow> rat \<Rightarrow> rat \<Rightarrow> rat \<Rightarrow> py_error + canvas" where
  "drawImage w c img x y width height =
     (case files w img of
        Some RasterImage \<Rightarrow>
          Inr (c\<lparr>cv_code := cv_code c @
                 [\<lparr>drw_image = img, drw_x = x, drw_y = y,
                   drw_width = width, drw_height = height\<rparr>]\<rparr>)
      | _ \<Rightarrow> Inl (OSError (''Cannot open resource '' @ img)))"

definition showPage :: "canvas \<Rightarrow> canvas" where
  "showPage c =
     c\<lparr>cv_pages := cv_pages c @
          [\<lparr>ov_width = fst (cv_pagesize c), ov_height = snd (cv_pagesize c),
            ov_code = cv_code c\<rparr>],
       cv_code := []\<rparr>"

text \<open>
  \<^verbatim>\<open>c.save()\<close> closes the current page only if something was drawn on it
  (reportlab: \<^verbatim>\<open>if len(self._code): self.showPage()\<close>) and writes the pages emitted.
  The result is the document that \<^verbatim>\<open>PdfReader(footer_buffer)\<close> reads back.
\<close>

definition save :: "canvas \<Rightarrow> overlay list" where
  "save c = cv_pages (if cv_code c \<noteq> [] then showPage c else c)"

text \<open>\<^verbatim>\<open>footer_pdf.pages[0]\<close>\<close>

definition first_page :: "overlay list \<Rightarrow> py_error + overlay" where
  "first_page pages =
     (case pages of
        [] \<Rightarrow> Inl (IndexError ''sequence index out of range'')
      | p # _ \<Rightarrow> Inr p)"

text \<open>\<^verbatim>\<open>page.merge_page(page2)\<close> puts the content of \<open>page2\<close> on top of the page.\<close>

definition merge_page :: "page \<Rightarrow> overlay \<Rightarrow> page" where
  "merge_page p page2 = p\<lparr>merged := merged p @ [page2]\<rparr>"

text \<open>\<^verbatim>\<open>s.lower()\<close> on code points below 256.\<close>

definition lower_char :: "char \<Rightarrow> char" where
  "lower_char c =
     (let n = (of_char c :: nat)
      in if (65 \<le> n \<and> n \<le> 90) \<or> (192 \<le> n \<and> n \<le> 222 \<and> n \<noteq> 215) then char_of (n + 32)
         else c)"

definition lower :: "string \<Rightarrow> string" where
  "lower s = map lower_char s"

text \<open>\<^verbatim>\<open>s.endswith(t)\<close>\<close>

definition endswith :: "string \<Rightarrow> string \<Rightarrow> bool" where
  "endswith s t = suffix t s"

text \<open>
  The \<^verbatim>\<open>try\<close> statement of \<^verbatim>\<open>add_footer_image\<close>: the lines printed and the canvas
  after it.
\<close>

definition try_draw ::
  "world \<Rightarrow> canvas \<Rightarrow> string \<Rightarrow> rat \<Rightarrow> rat \<Rightarrow> rat \<Rightarrow> string list \<times> canvas" where
  "try_draw w c image_path footer_x footer_y image_size =
     (if endswith (lower image_path) ''.svg'' then ([], c)
      else (case drawImage w c image_path (footer_x - image_size) footer_y
                   image_size image_size of
              Inl e \<Rightarrow> ([''Warning: Could not add footer image: '' @ error_str e], c)
            | Inr c' \<Rightarrow> ([], c')))"

text \<open>
  The loop of \<^verbatim>\<open>add_footer_image\<close>: the lines printed, and the pages added to the
  writer or the exception that ended the loop.
\<close>

fun footer_loop :: "world \<Rightarrow> string \<Rightarrow> page list \<Rightarrow> string list \<times> (py_error + page list)" where
  "footer_loop w image_path [] = ([], Inr [])"
| "footer_loop w image_path (p # rest) =
     (let page_width_pts = mediabox_width p;
          page_height_pts = mediabox_height p;
          c = Canvas (page_width_pts, page_height_pts);
          footer_x = page_width_pts - 50;
          footer_y = 30;
          image_size = 30;
          (printed, c') = try_draw w c image_path footer_x footer_y image_size;
          footer_pdf = save c'
      in case first_page footer_pdf of
           Inl e \<Rightarrow> (printed, Inl e)
         | Inr page2 \<Rightarrow>
             (case footer_loop w image_path rest of
                (printed', Inl e) \<Rightarrow> (printed @ printed', Inl e)
              | (printed', Inr out) \<Rightarrow> (printed @ printed', Inr (merge_page p page2 # out))))"

definition add_footer_image ::
  "world \<Rightarrow> string \<Rightarrow> string \<Rightarrow> string list \<times> (py_error + document)" where
  "add_footer_image w pdf_path image_path =
     (case PdfReader w pdf_path of
        Inl e \<Rightarrow> ([], Inl e)
      | Inr reader_pages \<Rightarrow> footer_loop w image_path reader_pages)"

section \<open>The command line\<close>

text \<open>\<^verbatim>\<open>s.split(sep)\<close> for a separator of one character.\<close>

fun split_on :: "char \<Rightarrow> string \<Rightarrow> string list" where
  "split_on sep [] = [[]]"
| "split_on sep (c # cs) =
     (if c = sep then [] # split_on sep cs
      else (case split_on sep cs of
              [] \<Rightarrow> [[c]]
            | h # t \<Rightarrow> (c # h) # t))"

text \<open>
  \<^verbatim>\<open>int(s)\<close> on a string: white space around the literal is skipped, a sign may
  come first, and single underscores may stand between digits.
\<close>

definition is_space :: "char \<Rightarrow> bool" where
  "is_space c = ((of_char c :: nat) \<in> {9, 10, 11, 12, 13, 32, 133, 160})"

definition is_digit :: "char \<Rightarrow> bool" where
  "is_digit c = (48 \<le> (of_char c :: nat) \<and> (of_char c :: nat) \<le> 57)"

definition strip :: "string \<Rightarrow> string" where
  "strip s = rev (dropWhile is_space (rev (dropWhile is_space s)))"

fun int_digits :: "string \<Rightarrow> bool" where
  "int_digits [] = False"
| "int_digits [c] = is_digit c"
| "int_digits (c # d # rest) =
     (is_digit c \<and> (if d = CHR ''_'' then int_digits rest else int_digits (d # rest)))"

definition digits_value :: "string \<Rightarrow> int" where
  "digits_value s =
     foldl (\<lambda>acc c. if c = CHR ''_'' then acc else 10 * acc + (int (of_char c) - 48)) 0 s"

definition py_int :: "string \<Rightarrow> py_error + int" where
  "py_int s =
     (let t = strip s;
          (negative, body) =
            (case t of
               [] \<Rightarrow> (False, [])
             | c # r \<Rightarrow>
                 if c = CHR ''-'' then (True, r)
                 else if c = CHR ''+'' then (False, r)
                 else (False, t))
      in if int_digits body
         then Inr (if negative then - digits_value body else digits_value body)
         else Inl (ValueError (''invalid literal for int() with base 10: '' @ quoted s)))"

text \<open>
  One pass of the loop that reads \<^verbatim>\<open>--rotate\<close>:
  \<^verbatim>\<open>page, angle = rotation.split(":")\<close> and
  \<^verbatim>\<open>rotations[int(page)] = int(angle)\<close>, whose right-hand side is evaluated first.
\<close>

definition parse_rotation :: "string \<Rightarrow> py_error + int \<times> int" where
  "parse_rotation rotation =
     (case split_on CHR '':'' rotation of
        [page_str, angle_str] \<Rightarrow>
          (case py_int angle_str of
             Inl e \<Rightarrow> Inl e
           | Inr angle \<Rightarrow>
               (case py_int page_str of
                  Inl e \<Rightarrow> Inl e
                | Inr page_no \<Rightarrow> Inr (page_no, angle)))
      | [_] \<Rightarrow> Inl (ValueError ''not enough values to unpack (expected 2, got 1)'')
      | _ \<Rightarrow> Inl (ValueError ''too many values to unpack (expected 2)''))"

fun parse_loop ::
  "(int \<Rightarrow> int option) \<Rightarrow> string list \<Rightarrow> py_error + (int \<Rightarrow> int option)" where
  "parse_loop rotations [] = Inr rotations"
| "parse_loop rotations (rotation # rest) =
     (case parse_rotation rotation of
        Inl e \<Rightarrow> Inl e
      | Inr (page_no, angle) \<Rightarrow> parse_loop (rotations(page_no \<mapsto> angle)) rest)"

definition parse_rotations :: "string \<Rightarrow> py_error + (int \<Rightarrow> int option)" where
  "parse_rotations spec = parse_loop Map.empty (split_on CHR '','' spec)"

text \<open>
  The parsed arguments. An option that was not given is \<open>None\<close>;
  \<^verbatim>\<open>--replace-url\<close> takes two values.
\<close>

record args =
  input_path :: string
  output_path :: string
  rotate :: "string option"
  replace_url :: "(string \<times> string) option"
  footer_image :: "string option"

text \<open>
  The truth value that \<^verbatim>\<open>if args.rotate:\<close> and \<^verbatim>\<open>if args.footer_image:\<close> test:
  \<^verbatim>\<open>None\<close> and the empty string are false.
\<close>

definition truthy :: "string option \<Rightarrow> bool" where
  "truthy v = (case v of None \<Rightarrow> False | Some s \<Rightarrow> s \<noteq> [])"

text \<open>
  The object that the variable \<^verbatim>\<open>writer\<close> holds: the reader that \<^verbatim>\<open>main\<close> starts
  with, or the writer that a transform returned.
\<close>

datatype working = ReaderObject document | WriterObject document

text \<open>How a block of statements ends.\<close>

datatype 'a completion = Normal 'a | Raised py_error | SystemExit int

text \<open>The three conditional steps of \<^verbatim>\<open>main\<close>.\<close>

definition rotate_step :: "world \<Rightarrow> args \<Rightarrow> working \<Rightarrow> py_error + working" where
  "rotate_step w a writer =
     (if truthy (rotate a)
      then (case parse_rotations (the (rotate a)) of
              Inl e \<Rightarrow> Inl e
            | Inr rotations \<Rightarrow>
                (case rotate_pages w (input_path a) rotations of
                   Inl e \<Rightarrow> Inl e
                 | Inr pages \<Rightarrow> Inr (WriterObject pages)))
      else Inr writer)"

definition replace_step :: "world \<Rightarrow> args \<Rightarrow> working \<Rightarrow> py_error + working" where
  "replace_step w a writer =
     (case replace_url a of
        None \<Rightarrow> Inr writer
      | Some (old, new) \<Rightarrow>
          (case replace_text_in_pdf w (input_path a) old new of
             Inl e \<Rightarrow> Inl e
           | Inr pages \<Rightarrow> Inr (WriterObject pages)))"

definition footer_step :: "world \<Rightarrow> args \<Rightarrow> working \<Rightarrow> string list \<times> working completion" where
  "footer_step w a writer =
     (if truthy (footer_image a)
      then (if \<not> path_exists w (the (footer_image a))
            then ([''Error: Footer image not found: '' @ the (footer_image a)], SystemExit 1)
            else (case add_footer_image w (input_path a) (the (footer_image a)) of
                    (printed, Inl e) \<Rightarrow> (printed, Raised e)
                  | (printed, Inr pages) \<Rightarrow> (printed, Normal (WriterObject pages))))
      else ([], Normal writer))"

text \<open>The error of calling \<^verbatim>\<open>write\<close> on a \<^verbatim>\<open>PdfReader\<close>, which has no such method.\<close>

definition no_write_method :: py_error where
  "no_write_method =
     AttributeError (quoted ''PdfReader'' @ '' object has no attribute '' @ quoted ''write'')"

text \<open>
  U+2705, the mark that opens the line printed on success, as its UTF-8 bytes.
\<close>

definition check_mark :: string where
  "check_mark = [char_of (226 :: nat), char_of (156 :: nat), char_of (133 :: nat)]"

text \<open>
  \<^verbatim>\<open>with open(args.output, "wb") as f: writer.write(f)\<close> and the line printed
  after it. Opening the file empties it; a \<^verbatim>\<open>PdfReader\<close> has no \<^verbatim>\<open>write\<close>.
\<close>

definition write_step :: "world \<Rightarrow> args \<Rightarrow> working \<Rightarrow> world \<times> string list \<times> unit completion" where
  "write_step w a writer =
     (if \<not> can_create w (output_path a)
      then (w, [], Raised (OSError (''No such file or directory: '' @ output_path a)))
      else (case writer of
              ReaderObject _ \<Rightarrow>
                (w\<lparr>files := (files w)(output_path a \<mapsto> EmptyFile)\<rparr>, [],
                 Raised no_write_method)
            | WriterObject pages \<Rightarrow>
                (w\<lparr>files := (files w)(output_path a \<mapsto> PdfFile pages)\<rparr>,
                 [check_mark @ '' PDF processed successfully: '' @ output_path a],
                 Normal ())))"

text \<open>The body of the \<^verbatim>\<open>try\<close> statement of \<^verbatim>\<open>main\<close>.\<close>

definition try_body :: "world \<Rightarrow> args \<Rightarrow> world \<times> string list \<times> unit completion" where
  "try_body w a =
     (case PdfReader w (input_path a) of
        Inl e \<Rightarrow> (w, [], Raised e)
      | Inr doc \<Rightarrow>
          (case rotate_step w a (ReaderObject doc) of
             Inl e \<Rightarrow> (w, [], Raised e)
           | Inr writer1 \<Rightarrow>
               (case replace_step w a writer1 of
                  Inl e \<Rightarrow> (w, [], Raised e)
                | Inr writer2 \<Rightarrow>
                    (case footer_step w a writer2 of
                       (printed, Raised e) \<Rightarrow> (w, printed, Raised e)
                     | (printed, SystemExit n) \<Rightarrow> (w, printed, SystemExit n)
                     | (printed, Normal writer3) \<Rightarrow>
                         (case write_step w a writer3 of
                            (w', printed', r) \<Rightarrow> (w', printed @ printed', r))))))"

text \<open>What a run leaves: the file system, the lines printed, the exit code.\<close>

record outcome =
  out_world :: world
  stdout :: "string list"
  exit_code :: int

definition main :: "world \<Rightarrow> args \<Rightarrow> outcome" where
  "main w a =
     (if \<not> path_exists w (input_path a)
      then \<lparr>out_world = w, stdout = [''Error: Input file not found: '' @ input_path a],
            exit_code = 1\<rparr>
      else (case try_body w a of
              (w', printed, Normal _) \<Rightarrow> \<lparr>out_world = w', stdout = printed, exit_code = 0\<rparr>
            | (w', printed, SystemExit n) \<Rightarrow> \<lparr>out_world = w', stdout = printed, exit_code = n\<rparr>
            | (w', printed, Raised e) \<Rightarrow>
                \<lparr>out_world = w', stdout = printed @ [''Error processing PDF: '' @ error_str e],
                 exit_code = 1\<rparr>))"

section \<open>The last transform applied\<close>

text \<open>The number of the options \<^verbatim>\<open>--rotate\<close>, \<^verbatim>\<open>--replace-url\<close>, \<^verbatim>\<open>--footer-image\<close> given.\<close>

definition supplied_count :: "args \<Rightarrow> nat" where
  "supplied_count a =
     (if rotate a \<noteq> None then 1 else 0) + (if replace_url a \<noteq> None then 1 else 0) +
     (if footer_image a \<noteq> None then 1 else 0)"

text \<open>
  The specification's account of a run with several options: only the last transform
  applied, in the order rotate, replace, footer, computed from the document at the input
  path. \<open>None\<close> when no transform is applied.
\<close>

definition last_applied_transform :: "world \<Rightarrow> args \<Rightarrow> (py_error + document) option" where
  "last_applied_transform w a =
     (if truthy (footer_image a)
      then Some (snd (add_footer_image w (input_path a) (the (footer_image a))))
      else if replace_url a \<noteq> None
      then Some (replace_text_in_pdf w (input_path a)
                   (fst (the (replace_url a))) (snd (the (replace_url a))))
      else if truthy (rotate a)
      then Some (case parse_rotations (the (rotate a)) of
                   Inl e \<Rightarrow> Inl e
                 | Inr rotations \<Rightarrow> rotate_pages w (input_path a) rotations)
      else None)"

section \<open>The footer overlay of the specification\<close>

text \<open>
  The overlay that the specification describes for a page: of the page's mediabox size,
  with the image drawn once, 30 by 30 points, its lower-left corner at
  (page width - 50 - 30, 30).
\<close>

definition footer_overlay :: "string \<Rightarrow> page \<Rightarrow> overlay" where
  "footer_overlay image_path p =
     \<lparr>ov_width = mediabox_width p, ov_height = mediabox_height p,
      ov_code = [\<lparr>drw_image = image_path, drw_x = mediabox_width p - 50 - 30, drw_y = 30,
                  drw_width = 30, drw_height = 30\<rparr>]\<rparr>"

section \<open>The grammar of the rotation argument\<close>

text \<open>
  The specification's grammar \<^verbatim>\<open>page:angle[,page:angle...]\<close>, with page and angle
  integer literals in base 10, as \<^verbatim>\<open>int\<close> reads them.
\<close>

definition int_literal :: "string \<Rightarrow> bool" where
  "int_literal s = (case py_int s of Inl _ \<Rightarrow> False | Inr _ \<Rightarrow> True)"

inductive rotate_item :: "string \<Rightarrow> bool" where
  item: "int_literal page_str \<Longrightarrow> int_literal angle_str \<Longrightarrow>
         rotate_item (page_str @ CHR '':'' # angle_str)"

inductive rotate_grammar :: "string \<Rightarrow> bool" where
  single: "rotate_item e \<Longrightarrow> rotate_grammar e"
| more: "rotate_item e \<Longrightarrow> rotate_grammar rest \<Longrightarrow> rotate_grammar (e @ CHR '','' # rest)"

section \<open>The two byte strings of the substitution example\<close>

definition old_url :: bytes where
  "old_url = ''team-wiki.local''"

definition new_url :: bytes where
  "new_url = ''team-wiki.etc.com''"

section \<open>Sample inputs\<close>

text \<open>Concrete documents, files and argument lists, used to run the definitions.\<close>

definition blank_page :: page where
  "blank_page = \<lparr>mediabox_width = 612, mediabox_height = 792, page_rotation = 0,
                  contents = NoKey, merged = []\<rparr>"

definition text_page :: "bytes \<Rightarrow> page" where
  "text_page b = \<lparr>mediabox_width = 612, mediabox_height = 792, page_rotation = 270,
                  contents = Resolves (DecodedStreamObject b), merged = []\<rparr>"

definition sample_doc :: document where
  "sample_doc = [text_page ''BT (see team-wiki.local) Tj ET'', text_page ''BT (page 2) Tj ET'']"

definition wiki_stream :: bytes where
  "wiki_stream = ''BT (see team-wiki.local) Tj ET''"

text \<open>A page whose content stream has a filter, and one whose content is an array.\<close>

definition filtered_page :: page where
  "filtered_page = \<lparr>mediabox_width = 612, mediabox_height = 792, page_rotation = 0,
                     contents = Resolves (EncodedStreamObject wiki_stream), merged = []\<rparr>"

definition array_page :: page where
  "array_page = \<lparr>mediabox_width = 612, mediabox_height = 792, page_rotation = 0,
                  contents = Resolves (ArrayObject [wiki_stream]), merged = []\<rparr>"

definition both_stream :: bytes where
  "both_stream = ''(team-wiki.etc.com team-wiki.local) Tj''"

definition both_replaced :: bytes where
  "both_replaced = ''(team-wiki.etc.com team-wiki.etc.com) Tj''"

definition sample_world :: world where
  "sample_world =
     \<lparr>files = [''in.pdf'' \<mapsto> PdfFile sample_doc,
               ''blank.pdf'' \<mapsto> PdfFile [blank_page],
               ''both.pdf'' \<mapsto> PdfFile [text_page both_stream],
               ''filtered.pdf'' \<mapsto> PdfFile [filtered_page],
               ''array.pdf'' \<mapsto> PdfFile [array_page],
               ''logo.png'' \<mapsto> RasterImage,
               ''logo.svg'' \<mapsto> OtherFile,
               ''bad.png'' \<mapsto> OtherFile],
      can_create = (\<lambda>p. p \<noteq> [])\<rparr>"

definition sample_args :: args where
  "sample_args = \<lparr>input_path = ''in.pdf'', output_path = ''out.pdf'', rotate = None,
                   replace_url = None, footer_image = None\<rparr>"

definition rotate_replace_args :: args where
  "rotate_replace_args =
     sample_args\<lparr>rotate := Some ''1:90'',
                   replace_url := Some (''team-wiki.local'', ''team-wiki.etc.com'')\<rparr>"

definition empty_rotate_args :: args where
  "empty_rotate_args =
     sample_args\<lparr>rotate := Some [],
                   replace_url := Some (''team-wiki.local'', ''team-wiki.etc.com'')\<rparr>"

definition replaced_doc :: document where
  "replaced_doc = [text_page ''BT (see team-wiki.etc.com) Tj ET'', text_page ''BT (page 2) Tj ET'']"

definition url_pair :: "string \<times> string" where
  "url_pair = (''team-wiki.local'', ''team-wiki.etc.com'')"

definition blank_replace_args :: args where
  "blank_replace_args = sample_args\<lparr>input_path := ''blank.pdf'', replace_url := Some url_pair\<rparr>"

definition svg_footer_args :: args where
  "svg_footer_args = sample_args\<lparr>footer_image := Some ''logo.svg''\<rparr>"

definition bad_footer_args :: args where
  "bad_footer_args = sample_args\<lparr>footer_image := Some ''bad.png''\<rparr>"

section \<open>Facts about the sample inputs\<close>

lemma sample_read: "PdfReader sample_world ''in.pdf'' = Inr sample_doc"
  by (simp add: PdfReader_def sample_world_def)

lemma replace_in_page_none:
  "contents p = ResolvesToNone \<Longrightarrow> replace_in_page old_text new_text p = Inr p"
  by (simp add: replace_in_page_def page_getitem_contents_def)

lemma replace_in_page_decoded:
  "contents p = Resolves (DecodedStreamObject b) \<Longrightarrow>
   replace_in_page old_text new_text p =
     Inr (p\<lparr>contents := Resolves (DecodedStreamObject
            (bytes_replace b (utf8_encode old_text) (utf8_encode new_text)))\<rparr>)"
  by (simp add: replace_in_page_def page_getitem_contents_def get_data_def set_data_def)

section \<open>Several options in one run\<close>

lemma rotate_step_Inr:
  assumes "rotate_step w a writer = Inr writer'"
  shows "(\<not> truthy (rotate a) \<and> writer' = writer) \<or>
         (truthy (rotate a) \<and>
          (\<exists>out. (case parse_rotations (the (rotate a)) of
                     Inl e \<Rightarrow> Inl e
                   | Inr rotations \<Rightarrow> rotate_pages w (input_path a) rotations) = Inr out \<and>
                 writer' = WriterObject out))"
  using assms by (auto simp: rotate_step_def split: if_splits sum.splits)

lemma replace_step_Inr:
  assumes "replace_step w a writer = Inr writer'"
  shows "(replace_url a = None \<and> writer' = writer) \<or>
         (replace_url a \<noteq> None \<and>
          (\<exists>out. replace_text_in_pdf w (input_path a)
                   (fst (the (replace_url a))) (snd (the (replace_url a))) = Inr out \<and>
                 writer' = WriterObject out))"
  using assms by (auto simp: replace_step_def split: option.splits sum.splits)

lemma footer_step_Normal:
  assumes "footer_step w a writer = (printed, Normal writer')"
  shows "(\<not> truthy (footer_image a) \<and> writer' = writer) \<or>
         (truthy (footer_image a) \<and>
          (\<exists>out. snd (add_footer_image w (input_path a) (the (footer_image a))) = Inr out \<and>
                 writer' = WriterObject out))"
  using assms by (auto simp: footer_step_def split: if_splits prod.splits sum.splits)

lemma write_step_Normal:
  assumes "write_step w a writer = (w', printed, Normal u)"
  shows "\<exists>out. writer = WriterObject out \<and>
               w' = w\<lparr>files := (files w)(output_path a \<mapsto> PdfFile out)\<rparr>"
  using assms by (auto simp: write_step_def split: if_splits working.splits)

lemma try_body_Normal:
  assumes "try_body w a = (w', printed, Normal u)"
  shows "\<exists>out. w' = w\<lparr>files := (files w)(output_path a \<mapsto> PdfFile out)\<rparr> \<and>
               last_applied_transform w a = Some (Inr out)"
proof -
  from assms obtain doc writer1 writer2 writer3 printed1 printed2 where
    s1: "rotate_step w a (ReaderObject doc) = Inr writer1" and
    s2: "replace_step w a writer1 = Inr writer2" and
    s3: "footer_step w a writer2 = (printed1, Normal writer3)" and
    s4: "write_step w a writer3 = (w', printed2, Normal u)"
    by (auto simp: try_body_def split: sum.splits prod.splits completion.splits)
  from write_step_Normal[OF s4] obtain out where
    w3: "writer3 = WriterObject out" and
    w': "w' = w\<lparr>files := (files w)(output_path a \<mapsto> PdfFile out)\<rparr>" by blast
  have "last_applied_transform w a = Some (Inr out)"
  proof (cases "truthy (footer_image a)")
    case True
    with footer_step_Normal[OF s3] w3 show ?thesis
      by (auto simp: last_applied_transform_def)
  next
    case nf: False
    with footer_step_Normal[OF s3] w3 have w2: "writer2 = WriterObject out" by auto
    show ?thesis
    proof (cases "replace_url a = None")
      case False
      with replace_step_Inr[OF s2] w2 nf show ?thesis
        by (auto simp: last_applied_transform_def)
    next
      case nr: True
      with replace_step_Inr[OF s2] w2 have w1: "writer1 = WriterObject out" by auto
      with rotate_step_Inr[OF s1] nf nr show ?thesis
        by (auto simp: last_applied_transform_def)
    qed
  qed
  with w' show ?thesis by blast
qed

lemma main_exit_0:
  assumes "exit_code (main w a) = 0"
  shows "\<exists>w' printed u. try_body w a = (w', printed, Normal u) \<and> out_world (main w a) = w'"
proof (cases "try_body w a")
  case (fields w' printed r)
  with assms show ?thesis
    by (cases r) (auto simp: main_def footer_step_def write_step_def try_body_def
        split: if_splits sum.splits prod.splits completion.splits working.splits)
qed

text \<open>
  C1: for every run in which more than one of \<^verbatim>\<open>--rotate\<close>, \<^verbatim>\<open>--replace-url\<close>,
  \<^verbatim>\<open>--footer-image\<close> is supplied and that writes its output (exit code 0), the document
  written to the output path is the result of the last transform applied, in the order
  rotate, replace, footer, computed from the document at the input path alone; nothing of
  the transforms requested before it is in the output.
\<close>

theorem main_keeps_last_transform_only:
  assumes "exit_code (main w a) = 0" and "2 \<le> supplied_count a"
  shows "\<exists>out. files (out_world (main w a)) (output_path a) = Some (PdfFile out) \<and>
               last_applied_transform w a = Some (Inr out)"
proof -
  from main_exit_0[OF assms(1)] obtain w' printed u where
    "try_body w a = (w', printed, Normal u)" and "out_world (main w a) = w'" by blast
  with try_body_Normal show ?thesis by fastforce
qed

text \<open>
  C1 on the sample document with \<^verbatim>\<open>--rotate 1:90\<close> and \<^verbatim>\<open>--replace-url\<close>: the file
  written holds the substituted text, and no page of it is rotated (page 1 stays at 270).
\<close>

theorem main_keeps_last_transform_only_witness:
  "exit_code (main sample_world rotate_replace_args) = 0 \<and>
   2 \<le> supplied_count rotate_replace_args \<and>
   files (out_world (main sample_world rotate_replace_args)) ''out.pdf'' =
     Some (PdfFile replaced_doc) \<and>
   last_applied_transform sample_world rotate_replace_args = Some (Inr replaced_doc) \<and>
   map page_rotation replaced_doc = [270, 270]"
proof -
  have ok: "exit_code (main sample_world rotate_replace_args) = 0"
    by code_simp
  have two: "2 \<le> supplied_count rotate_replace_args"
    by code_simp
  have written: "files (out_world (main sample_world rotate_replace_args)) ''out.pdf'' =
     Some (PdfFile replaced_doc)"
    by code_simp
  have path: "output_path rotate_replace_args = ''out.pdf''"
    by (simp add: rotate_replace_args_def sample_args_def)
  from main_keeps_last_transform_only[OF ok two] written path
  have "last_applied_transform sample_world rotate_replace_args = Some (Inr replaced_doc)"
    by auto
  moreover have "map page_rotation replaced_doc = [270, 270]"
    by (simp add: replaced_doc_def text_page_def)
  ultimately show ?thesis using ok two written by simp
qed

section \<open>Pages without a content stream\<close>

text \<open>
  C2 does not hold of the code: the guard \<^verbatim>\<open>page["/Contents"] is not None\<close> is meant
  to pass pages without a content stream through, but subscripting a page that has no
  \<^verbatim>\<open>/Contents\<close> key raises \<^verbatim>\<open>KeyError\<close> before the comparison. On the document
  \<^verbatim>\<open>blank.pdf\<close>, a single page without the key, the transform raises, and the run
  prints the generic failure, exits with code 1 and writes no output file.
\<close>

theorem blank_page_substitution_raises:
  "PdfReader sample_world ''blank.pdf'' = Inr [blank_page] \<and>
   contents blank_page = NoKey \<and>
   replace_text_in_pdf sample_world ''blank.pdf'' ''team-wiki.local'' ''team-wiki.etc.com'' =
     Inl (KeyError ''/Contents'') \<and>
   stdout (main sample_world blank_replace_args) =
     [''Error processing PDF: '' @ error_str (KeyError ''/Contents'')] \<and>
   exit_code (main sample_world blank_replace_args) = 1 \<and>
   files (out_world (main sample_world blank_replace_args)) ''out.pdf'' = None"
proof -
  have c1: "PdfReader sample_world ''blank.pdf'' = Inr [blank_page]"
    by code_simp
  have c2: "contents blank_page = NoKey"
    by code_simp
  have c3: "replace_text_in_pdf sample_world ''blank.pdf'' ''team-wiki.local'' ''team-wiki.etc.com'' =
       Inl (KeyError ''/Contents'')"
    by code_simp
  have c4: "stdout (main sample_world blank_replace_args) =
       [''Error processing PDF: '' @ error_str (KeyError ''/Contents'')]"
    by code_simp
  have c5: "exit_code (main sample_world blank_replace_args) = 1"
    by code_simp
  have c6: "files (out_world (main sample_world blank_replace_args)) ''out.pdf'' = None"
    by code_simp
  show ?thesis
    by (intro conjI c1 c2 c3 c4 c5 c6)
qed

section \<open>Rotation: the pages that a mapping touches\<close>

lemma rotate_loop_ok:
  "\<forall>i<length ps. \<forall>a. rotations (int (n + i) + 1) = Some a \<longrightarrow> a mod 90 = 0 \<Longrightarrow>
   \<exists>out. rotate_loop rotations n ps = Inr out \<and> length out = length ps \<and>
     (\<forall>i<length ps. out ! i =
        (case rotations (int (n + i) + 1) of
           None \<Rightarrow> ps ! i
         | Some a \<Rightarrow> (ps ! i)\<lparr>page_rotation := page_rotation (ps ! i) + a\<rparr>))"
proof (induction ps arbitrary: n)
  case Nil
  then show ?case by simp
next
  case (Cons p ps)
  have tl: "\<forall>i<length ps. \<forall>a. rotations (int (Suc n + i) + 1) = Some a \<longrightarrow> a mod 90 = 0"
  proof (intro allI impI)
    fix i a assume "i < length ps" and "rotations (int (Suc n + i) + 1) = Some a"
    with Cons.prems[rule_format, of "Suc i" a] show "a mod 90 = 0" by simp
  qed
  from Cons.IH[OF tl] obtain out where
    out: "rotate_loop rotations (Suc n) ps = Inr out" "length out = length ps"
      "\<forall>i<length ps. out ! i =
        (case rotations (int (Suc n + i) + 1) of
           None \<Rightarrow> ps ! i
         | Some a \<Rightarrow> (ps ! i)\<lparr>page_rotation := page_rotation (ps ! i) + a\<rparr>)"
    by blast
  define p' where "p' = (case rotations (int n + 1) of
           None \<Rightarrow> p | Some a \<Rightarrow> p\<lparr>page_rotation := page_rotation p + a\<rparr>)"
  have first: "(case rotations (int n + 1) of None \<Rightarrow> Inr p | Some angle \<Rightarrow> page_rotate angle p)
      = Inr p'"
    using Cons.prems[rule_format, of 0]
    by (auto simp: p'_def page_rotate_def split: option.splits)
  have "rotate_loop rotations n (p # ps) = Inr (p' # out)"
    using first out(1) by simp
  moreover have "\<forall>i<length (p # ps). (p' # out) ! i =
        (case rotations (int (n + i) + 1) of
           None \<Rightarrow> (p # ps) ! i
         | Some a \<Rightarrow> ((p # ps) ! i)\<lparr>page_rotation := page_rotation ((p # ps) ! i) + a\<rparr>)"
  proof (intro allI impI)
    fix i assume less: "i < length (p # ps)"
    show "(p' # out) ! i =
        (case rotations (int (n + i) + 1) of
           None \<Rightarrow> (p # ps) ! i
         | Some a \<Rightarrow> ((p # ps) ! i)\<lparr>page_rotation := page_rotation ((p # ps) ! i) + a\<rparr>)"
    proof (cases i)
      case 0
      then show ?thesis by (simp add: p'_def split: option.splits)
    next
      case (Suc j)
      with less have "j < length ps" by simp
      with out(3) Suc show ?thesis by (simp split: option.splits)
    qed
  qed
  ultimately show ?case using out(2) by simp
qed

lemma rotate_loop_cong:
  "\<forall>i<length ps. r' (int (n + i) + 1) = r (int (n + i) + 1) \<Longrightarrow>
   rotate_loop r' n ps = rotate_loop r n ps"
proof (induction ps arbitrary: n)
  case Nil
  then show ?case by simp
next
  case (Cons p ps)
  have "\<forall>i<length ps. r' (int (Suc n + i) + 1) = r (int (Suc n + i) + 1)"
  proof (intro allI impI)
    fix i assume "i < length ps"
    with Cons.prems[rule_format, of "Suc i"]
    show "r' (int (Suc n + i) + 1) = r (int (Suc n + i) + 1)" by simp
  qed
  from Cons.IH[OF this] have "rotate_loop r' (Suc n) ps = rotate_loop r (Suc n) ps" .
  moreover from Cons.prems[rule_format, of 0] have "r' (int n + 1) = r (int n + 1)" by simp
  ultimately show ?case by (simp split: option.splits sum.splits)
qed

text \<open>
  C3, as stated, fails: the claim covers every mapping, and \<^verbatim>\<open>page.rotate\<close> raises for
  an angle that is not a multiple of 90. Rotating page 1 of the sample document by 45
  degrees returns no document.
\<close>

theorem rotate_pages_any_angle_counterexample:
  "rotate_pages sample_world ''in.pdf'' [1 \<mapsto> 45] =
     Inl (ValueError ''Rotation angle must be a multiple of 90'')"
  by (simp add: rotate_pages_def sample_read page_rotate_def sample_doc_def)

text \<open>
  C3, amended: for every document and every rotation mapping whose angles for the
  document's pages are multiples of 90, the rotation transform returns a document of the
  same length; a page whose 1-indexed number is a key of the mapping has its stored
  rotation increased by the mapped angle, so it equals the input rotation plus the angle
  modulo 360, and is otherwise the input page; a page whose number is not a key is
  unchanged; and the keys outside \<open>1..length doc\<close> have no effect: any mapping that
  agrees on the document's page numbers gives the same document.
\<close>

theorem rotate_pages_spec:
  assumes "PdfReader w pdf_path = Inr doc"
      and "\<forall>i<length doc. \<forall>a. rotations (int i + 1) = Some a \<longrightarrow> a mod 90 = 0"
  shows "\<exists>out. rotate_pages w pdf_path rotations = Inr out \<and> length out = length doc \<and>
     (\<forall>i<length doc.
        case rotations (int i + 1) of
          Some a \<Rightarrow> out ! i = (doc ! i)\<lparr>page_rotation := page_rotation (doc ! i) + a\<rparr> \<and>
                     page_rotation (out ! i) mod 360 = (page_rotation (doc ! i) + a) mod 360
        | None \<Rightarrow> out ! i = doc ! i) \<and>
     (\<forall>rotations'. (\<forall>k. 1 \<le> k \<and> k \<le> int (length doc) \<longrightarrow> rotations' k = rotations k) \<longrightarrow>
        rotate_pages w pdf_path rotations' = Inr out)"
proof -
  from assms(2) have "\<forall>i<length doc. \<forall>a. rotations (int (0 + i) + 1) = Some a \<longrightarrow> a mod 90 = 0"
    by simp
  from rotate_loop_ok[OF this] obtain out where
    out: "rotate_loop rotations 0 doc = Inr out" "length out = length doc"
      "\<forall>i<length doc. out ! i =
        (case rotations (int (0 + i) + 1) of
           None \<Rightarrow> doc ! i
         | Some a \<Rightarrow> (doc ! i)\<lparr>page_rotation := page_rotation (doc ! i) + a\<rparr>)"
    by blast
  have run: "rotate_pages w pdf_path rotations = Inr out"
    using assms(1) out(1) by (simp add: rotate_pages_def)
  have pages: "\<forall>i<length doc.
        case rotations (int i + 1) of
          Some a \<Rightarrow> out ! i = (doc ! i)\<lparr>page_rotation := page_rotation (doc ! i) + a\<rparr> \<and>
                     page_rotation (out ! i) mod 360 = (page_rotation (doc ! i) + a) mod 360
        | None \<Rightarrow> out ! i = doc ! i"
    using out(3) by (auto split: option.splits)
  have others: "\<forall>rotations'.
        (\<forall>k. 1 \<le> k \<and> k \<le> int (length doc) \<longrightarrow> rotations' k = rotations k) \<longrightarrow>
        rotate_pages w pdf_path rotations' = Inr out"
  proof (intro allI impI)
    fix rotations' :: "int \<Rightarrow> int option"
    assume agree: "\<forall>k. 1 \<le> k \<and> k \<le> int (length doc) \<longrightarrow> rotations' k = rotations k"
    have "\<forall>i<length doc. rotations' (int (0 + i) + 1) = rotations (int (0 + i) + 1)"
      using agree by simp
    from rotate_loop_cong[OF this] show "rotate_pages w pdf_path rotations' = Inr out"
      using assms(1) out(1) by (simp add: rotate_pages_def)
  qed
  from run out(2) pages others show ?thesis by blast
qed

text \<open>
  The amended C3 on the sample document, with 90 degrees for page 1 and a key 7 beyond
  the two pages: page 1 goes from 270 to 360, page 2 is unchanged, and dropping key 7
  gives the same document.
\<close>

theorem rotate_pages_spec_witness:
  "PdfReader sample_world ''in.pdf'' = Inr sample_doc \<and>
   (\<exists>out. rotate_pages sample_world ''in.pdf'' [1 \<mapsto> 90, 7 \<mapsto> 45] = Inr out \<and>
      length out = 2 \<and> page_rotation (out ! 0) = 360 \<and> out ! 1 = sample_doc ! 1 \<and>
      rotate_pages sample_world ''in.pdf'' [1 \<mapsto> 90] = Inr out)"
proof -
  have len: "length sample_doc = 2" by (simp add: sample_doc_def)
  have ang: "\<forall>i<length sample_doc. \<forall>a.
      [1 \<mapsto> 90, 7 \<mapsto> (45::int)] (int i + 1) = Some a \<longrightarrow> a mod 90 = 0"
    by (auto simp: len)
  from rotate_pages_spec[OF sample_read ang] obtain out where
    o: "rotate_pages sample_world ''in.pdf'' [1 \<mapsto> 90, 7 \<mapsto> 45] = Inr out"
       "length out = length sample_doc"
       "\<forall>i<length sample_doc.
        case [1 \<mapsto> 90, 7 \<mapsto> (45::int)] (int i + 1) of
          Some a \<Rightarrow> out ! i = (sample_doc ! i)\<lparr>page_rotation := page_rotation (sample_doc ! i) + a\<rparr> \<and>
                     page_rotation (out ! i) mod 360 = (page_rotation (sample_doc ! i) + a) mod 360
        | None \<Rightarrow> out ! i = sample_doc ! i"
       "\<forall>rotations'.
          (\<forall>k. 1 \<le> k \<and> k \<le> int (length sample_doc) \<longrightarrow>
               rotations' k = [1 \<mapsto> 90, 7 \<mapsto> (45::int)] k) \<longrightarrow>
          rotate_pages sample_world ''in.pdf'' rotations' = Inr out"
    by blast
  from o(3)[rule_format, of 0] have p0: "page_rotation (out ! 0) = 360"
    by (simp add: len sample_doc_def text_page_def)
  from o(3)[rule_format, of 1] have p1: "out ! 1 = sample_doc ! 1"
    by (simp add: len)
  from o(4)[rule_format, of "[1 \<mapsto> 90]"]
  have same: "rotate_pages sample_world ''in.pdf'' [1 \<mapsto> 90] = Inr out"
    by (simp add: len)
  from sample_read o(1) o(2) p0 p1 same show ?thesis by (auto simp: len)
qed

section \<open>Substitution of the wiki address\<close>

lemma replace_from_Nil: "replace_from old new [] = []"
  by (subst replace_from.simps) simp

lemma replace_from_match:
  "old \<noteq> [] \<Longrightarrow> replace_from old new (old @ z) = new @ replace_from old new z"
  by (subst replace_from.simps) simp

lemma replace_from_no_match:
  "\<not> prefix old (c # cs) \<Longrightarrow> replace_from old new (c # cs) = c # replace_from old new cs"
  by (subst replace_from.simps) simp

lemma old_url_not_Nil: "old_url \<noteq> []"
  by (simp add: old_url_def)

lemma old_url_hd: "prefix old_url (c # cs) \<Longrightarrow> c = CHR ''t''"
  by (simp add: old_url_def)

lemma new_url_Cons: "new_url = CHR ''t'' # CHR ''e'' # drop 2 new_url"
  by (simp add: new_url_def)

lemma replace_url_match:
  "replace_from old_url new_url (old_url @ z) = new_url @ replace_from old_url new_url z"
  by (rule replace_from_match[OF old_url_not_Nil])

lemma replace_url_tfree:
  "CHR ''t'' \<notin> set u \<Longrightarrow>
   replace_from old_url new_url (u @ z) = u @ replace_from old_url new_url z"
proof (induction u)
  case Nil
  show ?case by simp
next
  case (Cons c u)
  then have "c \<noteq> CHR ''t''" by auto
  with old_url_hd[of c "u @ z"] have "\<not> prefix old_url (c # (u @ z))" by blast
  from replace_from_no_match[OF this] Cons show ?case by simp
qed

text \<open>A prefix of the result without the letter t is a prefix of the argument.\<close>

lemma tfree_prefix_back:
  "CHR ''t'' \<notin> set u \<Longrightarrow> prefix u (replace_from old_url new_url s) \<Longrightarrow> prefix u s"
proof (induction u arbitrary: s)
  case Nil
  show ?case by simp
next
  case (Cons c u)
  from Cons.prems(1) have c: "c \<noteq> CHR ''t''" and u: "CHR ''t'' \<notin> set u" by auto
  show ?case
  proof (cases s)
    case Nil
    with Cons.prems(2) show ?thesis by (simp add: replace_from_Nil)
  next
    case s: (Cons d ds)
    show ?thesis
    proof (cases "prefix old_url s")
      case True
      then obtain z where z: "s = old_url @ z" by (auto simp: prefix_def)
      have "replace_from old_url new_url s = new_url @ replace_from old_url new_url z"
        unfolding z by (rule replace_url_match)
      with Cons.prems(2) have "prefix (c # u) (new_url @ replace_from old_url new_url z)"
        by simp
      then have "c = CHR ''t''" by (subst (asm) new_url_Cons) simp
      with c show ?thesis by simp
    next
      case False
      then have "\<not> prefix old_url (d # ds)" unfolding s .
      from replace_from_no_match[OF this]
      have "replace_from old_url new_url s = d # replace_from old_url new_url ds"
        unfolding s .
      with Cons.prems(2) have "c = d" and "prefix u (replace_from old_url new_url ds)"
        by simp_all
      with Cons.IH[OF u] s show ?thesis by simp
    qed
  qed
qed

text \<open>
  The same for a prefix that starts with t, goes on with a letter other than e and has
  no further t.
\<close>

lemma t_prefix_back:
  assumes "CHR ''t'' \<notin> set u" and "u \<noteq> []" and "hd u \<noteq> CHR ''e''"
      and "prefix (CHR ''t'' # u) (replace_from old_url new_url s)"
  shows "prefix (CHR ''t'' # u) s"
proof (cases s)
  case Nil
  with assms(4) show ?thesis by (simp add: replace_from_Nil)
next
  case s: (Cons d ds)
  show ?thesis
  proof (cases "prefix old_url s")
    case True
    then obtain z where z: "s = old_url @ z" by (auto simp: prefix_def)
    have "replace_from old_url new_url s = new_url @ replace_from old_url new_url z"
      unfolding z by (rule replace_url_match)
    with assms(4) have "prefix (CHR ''t'' # u) (new_url @ replace_from old_url new_url z)"
      by simp
    then have "prefix u (CHR ''e'' # drop 2 new_url @ replace_from old_url new_url z)"
      by (subst (asm) new_url_Cons) simp
    with assms(2,3) show ?thesis by (cases u) simp_all
  next
    case False
    then have "\<not> prefix old_url (d # ds)" unfolding s .
    from replace_from_no_match[OF this]
    have "replace_from old_url new_url s = d # replace_from old_url new_url ds"
      unfolding s .
    with assms(4) have "CHR ''t'' = d" and "prefix u (replace_from old_url new_url ds)"
      by simp_all
    with tfree_prefix_back[OF assms(1)] s show ?thesis by simp
  qed
qed

lemma occ_old_after_new: "occurrences old_url (new_url @ r) = occurrences old_url r"
  by (simp add: old_url_def new_url_def)

lemma occ_new_after_new: "occurrences new_url (new_url @ r) = Suc (occurrences new_url r)"
  by (simp add: new_url_def)

lemma occ_old_after_old: "occurrences old_url (old_url @ r) = Suc (occurrences old_url r)"
  by (simp add: old_url_def)

lemma occ_new_after_old: "occurrences new_url (old_url @ r) = occurrences new_url r"
  by (simp add: old_url_def new_url_def)

lemma prefix_old_url_Cons:
  "prefix old_url (c # cs) \<longleftrightarrow> c = CHR ''t'' \<and> prefix ''eam-wiki.local'' cs"
  by (auto simp: old_url_def)

lemma prefix_new_url_Cons:
  "prefix new_url (c # cs) \<longleftrightarrow>
     c = CHR ''t'' \<and> prefix (''eam-wiki.e'' @ CHR ''t'' # ''c.com'') cs"
  by (auto simp: new_url_def)

lemma no_old_across:
  assumes "\<not> prefix old_url (d # ds)"
  shows "\<not> prefix old_url (d # replace_from old_url new_url ds)"
proof
  assume "prefix old_url (d # replace_from old_url new_url ds)"
  then have d: "d = CHR ''t''"
    and "prefix ''eam-wiki.local'' (replace_from old_url new_url ds)"
    unfolding prefix_old_url_Cons by blast+
  from tfree_prefix_back[OF _ this(2)] have "prefix ''eam-wiki.local'' ds" by simp
  with d have "prefix old_url (d # ds)" unfolding prefix_old_url_Cons by blast
  with assms show False by contradiction
qed

lemma occ_old_replaced: "occurrences old_url (replace_from old_url new_url s) = 0"
proof (induction "length s" arbitrary: s rule: less_induct)
  case less
  show ?case
  proof (cases s)
    case Nil
    then show ?thesis by (simp add: replace_from_Nil)
  next
    case s: (Cons d ds)
    show ?thesis
    proof (cases "prefix old_url s")
      case True
      then obtain z where z: "s = old_url @ z" by (auto simp: prefix_def)
      then have "length z < length s" using old_url_not_Nil by simp
      from less[OF this] show ?thesis
        unfolding z by (simp only: replace_url_match occ_old_after_new)
    next
      case False
      then have nm: "\<not> prefix old_url (d # ds)" unfolding s .
      have "length ds < length s" by (simp add: s)
      from less[OF this] no_old_across[OF nm] show ?thesis
        unfolding s by (simp add: replace_from_no_match[OF nm])
    qed
  qed
qed

lemma new_across:
  assumes "\<not> prefix old_url (d # ds)"
  shows "prefix new_url (d # replace_from old_url new_url ds) \<longleftrightarrow> prefix new_url (d # ds)"
proof
  assume "prefix new_url (d # replace_from old_url new_url ds)"
  then have d: "d = CHR ''t''"
    and long: "prefix (''eam-wiki.e'' @ CHR ''t'' # ''c.com'') (replace_from old_url new_url ds)"
    unfolding prefix_new_url_Cons by blast+
  from long have "prefix ''eam-wiki.e'' (replace_from old_url new_url ds)"
    by (rule append_prefixD)
  from tfree_prefix_back[OF _ this] have "prefix ''eam-wiki.e'' ds" by simp
  then obtain ds' where ds: "ds = ''eam-wiki.e'' @ ds'" by (auto simp: prefix_def)
  have "replace_from old_url new_url ds = ''eam-wiki.e'' @ replace_from old_url new_url ds'"
    unfolding ds by (rule replace_url_tfree) simp
  with long have "prefix (CHR ''t'' # ''c.com'') (replace_from old_url new_url ds')"
    by (simp only: same_prefix_prefix)
  from t_prefix_back[OF _ _ _ this] have "prefix (CHR ''t'' # ''c.com'') ds'" by simp
  then have "prefix (''eam-wiki.e'' @ CHR ''t'' # ''c.com'') ds"
    unfolding ds by (simp only: same_prefix_prefix)
  with d show "prefix new_url (d # ds)" unfolding prefix_new_url_Cons by blast
next
  assume "prefix new_url (d # ds)"
  then have d: "d = CHR ''t''"
    and "prefix (''eam-wiki.e'' @ CHR ''t'' # ''c.com'') ds"
    unfolding prefix_new_url_Cons by blast+
  then obtain rest where ds: "ds = ''eam-wiki.e'' @ (CHR ''t'' # ''c.com'' @ rest)"
    by (auto simp: prefix_def)
  have "\<not> prefix old_url (CHR ''t'' # ''c.com'' @ rest)"
    by (simp add: old_url_def)
  from replace_from_no_match[OF this]
  have "replace_from old_url new_url (CHR ''t'' # ''c.com'' @ rest) =
        CHR ''t'' # replace_from old_url new_url (''c.com'' @ rest)" .
  moreover have "replace_from old_url new_url (''c.com'' @ rest) =
        ''c.com'' @ replace_from old_url new_url rest"
    by (rule replace_url_tfree) simp
  ultimately have "replace_from old_url new_url (CHR ''t'' # ''c.com'' @ rest) =
        CHR ''t'' # ''c.com'' @ replace_from old_url new_url rest"
    by (simp only:)
  moreover have "replace_from old_url new_url ds =
      ''eam-wiki.e'' @ replace_from old_url new_url (CHR ''t'' # ''c.com'' @ rest)"
    unfolding ds by (rule replace_url_tfree) simp
  ultimately have "replace_from old_url new_url ds =
      (''eam-wiki.e'' @ CHR ''t'' # ''c.com'') @ replace_from old_url new_url rest"
    by simp
  then have "prefix (''eam-wiki.e'' @ CHR ''t'' # ''c.com'') (replace_from old_url new_url ds)"
    by (simp only: prefixI)
  with d show "prefix new_url (d # replace_from old_url new_url ds)"
    unfolding prefix_new_url_Cons by blast
qed

lemma occ_new_replaced:
  "occurrences new_url (replace_from old_url new_url s) =
     occurrences old_url s + occurrences new_url s"
proof (induction "length s" arbitrary: s rule: less_induct)
  case less
  show ?case
  proof (cases s)
    case Nil
    then show ?thesis by (simp add: replace_from_Nil)
  next
    case s: (Cons d ds)
    show ?thesis
    proof (cases "prefix old_url s")
      case True
      then obtain z where z: "s = old_url @ z" by (auto simp: prefix_def)
      then have "length z < length s" using old_url_not_Nil by simp
      from less[OF this] show ?thesis
        unfolding z
        by (simp only: replace_url_match occ_new_after_new occ_old_after_old occ_new_after_old
              add_Suc)
    next
      case False
      then have nm: "\<not> prefix old_url (d # ds)" unfolding s .
      have "length ds < length s" by (simp add: s)
      from less[OF this] new_across[OF nm] nm show ?thesis
        unfolding s by (simp add: replace_from_no_match[OF nm])
    qed
  qed
qed

lemma utf8_old_url: "utf8_encode ''team-wiki.local'' = old_url"
  by (simp add: utf8_encode_def old_url_def)

lemma utf8_new_url: "utf8_encode ''team-wiki.etc.com'' = new_url"
  by (simp add: utf8_encode_def new_url_def)

lemma replace_in_page_Inr:
  assumes "replace_in_page old_text new_text p = Inr p'"
  shows "(contents p = ResolvesToNone \<and> p' = p) \<or>
         (\<exists>b. contents p = Resolves (DecodedStreamObject b) \<and>
              p' = p\<lparr>contents := Resolves (DecodedStreamObject
                     (bytes_replace b (utf8_encode old_text) (utf8_encode new_text)))\<rparr>)"
  using assms
  by (auto simp: replace_in_page_def page_getitem_contents_def get_data_def set_data_def
        no_attribute_def split: contents_entry.splits pdf_object.splits)

lemma replace_loop_Inr:
  "replace_loop old_text new_text ps = Inr out \<Longrightarrow>
   length out = length ps \<and>
   (\<forall>i<length ps. replace_in_page old_text new_text (ps ! i) = Inr (out ! i))"
proof (induction ps arbitrary: out)
  case Nil
  then show ?case by simp
next
  case (Cons p ps)
  from Cons.prems obtain p' out' where
    p': "replace_in_page old_text new_text p = Inr p'" and
    out': "replace_loop old_text new_text ps = Inr out'" and
    out: "out = p' # out'"
    by (auto split: sum.splits)
  from Cons.IH[OF out'] have len: "length out' = length ps"
    and rest: "\<forall>i<length ps. replace_in_page old_text new_text (ps ! i) = Inr (out' ! i)"
    by simp_all
  have "\<forall>i<length (p # ps). replace_in_page old_text new_text ((p # ps) ! i) = Inr (out ! i)"
  proof (intro allI impI)
    fix i assume "i < length (p # ps)"
    then show "replace_in_page old_text new_text ((p # ps) ! i) = Inr (out ! i)"
      using p' rest out by (cases i) simp_all
  qed
  with len out show ?case by simp
qed

lemma replace_loop_total:
  "\<forall>i<length ps. contents (ps ! i) = ResolvesToNone \<or>
                    (\<exists>b. contents (ps ! i) = Resolves (DecodedStreamObject b)) \<Longrightarrow>
   \<exists>out. replace_loop old_text new_text ps = Inr out"
proof (induction ps)
  case Nil
  show ?case by simp
next
  case (Cons p ps)
  have "\<forall>i<length ps. contents (ps ! i) = ResolvesToNone \<or>
                    (\<exists>b. contents (ps ! i) = Resolves (DecodedStreamObject b))"
  proof (intro allI impI)
    fix i assume "i < length ps"
    with Cons.prems[rule_format, of "Suc i"]
    show "contents (ps ! i) = ResolvesToNone \<or>
          (\<exists>b. contents (ps ! i) = Resolves (DecodedStreamObject b))" by simp
  qed
  from Cons.IH[OF this] obtain out where out: "replace_loop old_text new_text ps = Inr out"
    by blast
  from Cons.prems[rule_format, of 0]
  have "contents p = ResolvesToNone \<or> (\<exists>b. contents p = Resolves (DecodedStreamObject b))"
    by simp
  then obtain p' where "replace_in_page old_text new_text p = Inr p'"
    using replace_in_page_none replace_in_page_decoded by blast
  with out show ?case by simp
qed

text \<open>
  C4, as stated, fails in two ways. First, a content stream that already holds the new
  byte string has more occurrences of it after the substitution than it had occurrences
  of the old one: the stream of \<^verbatim>\<open>both.pdf\<close> holds the old string once, and after the
  substitution it holds the new string twice. Second, the transform does not yield a
  stream for every document whose content holds the old string: on a stream with a filter
  \<^verbatim>\<open>set_data\<close> refuses the new data, and an array of streams has no \<^verbatim>\<open>get_data\<close>;
  the one page of \<^verbatim>\<open>filtered.pdf\<close> and of \<^verbatim>\<open>array.pdf\<close> holds the old string once,
  and the transform raises on both.
\<close>

theorem substitution_count_counterexample:
  "PdfReader sample_world ''both.pdf'' = Inr [text_page both_stream] \<and>
   replace_text_in_pdf sample_world ''both.pdf'' ''team-wiki.local'' ''team-wiki.etc.com'' =
     Inr [text_page both_replaced] \<and>
   occurrences old_url both_stream = 1 \<and>
   occurrences new_url both_replaced = 2 \<and>
   PdfReader sample_world ''filtered.pdf'' = Inr [filtered_page] \<and>
   contents filtered_page = Resolves (EncodedStreamObject wiki_stream) \<and>
   PdfReader sample_world ''array.pdf'' = Inr [array_page] \<and>
   contents array_page = Resolves (ArrayObject [wiki_stream]) \<and>
   occurrences old_url wiki_stream = 1 \<and>
   replace_text_in_pdf sample_world ''filtered.pdf'' ''team-wiki.local'' ''team-wiki.etc.com'' =
     Inl (PdfReadError ''Creating EncodedStreamObject is not currently supported'') \<and>
   replace_text_in_pdf sample_world ''array.pdf'' ''team-wiki.local'' ''team-wiki.etc.com'' =
     no_attribute ''ArrayObject'' ''get_data''"
proof -
  have c1: "PdfReader sample_world ''both.pdf'' = Inr [text_page both_stream]"
    by code_simp
  have c2: "replace_text_in_pdf sample_world ''both.pdf'' ''team-wiki.local''
      ''team-wiki.etc.com'' = Inr [text_page both_replaced]"
    by code_simp
  have c3: "occurrences old_url both_stream = 1"
    by code_simp
  have c4: "occurrences new_url both_replaced = 2"
    by code_simp
  have c5: "PdfReader sample_world ''filtered.pdf'' = Inr [filtered_page]"
    by code_simp
  have c6: "contents filtered_page = Resolves (EncodedStreamObject wiki_stream)"
    by (simp add: filtered_page_def)
  have c7: "PdfReader sample_world ''array.pdf'' = Inr [array_page]"
    by code_simp
  have c8: "contents array_page = Resolves (ArrayObject [wiki_stream])"
    by (simp add: array_page_def)
  have c9: "occurrences old_url wiki_stream = 1"
    by code_simp
  have c10: "replace_text_in_pdf sample_world ''filtered.pdf'' ''team-wiki.local''
      ''team-wiki.etc.com'' =
      Inl (PdfReadError ''Creating EncodedStreamObject is not currently supported'')"
    by code_simp
  have c11: "replace_text_in_pdf sample_world ''array.pdf'' ''team-wiki.local''
      ''team-wiki.etc.com'' = no_attribute ''ArrayObject'' ''get_data''"
    by code_simp
  show ?thesis
    by (intro conjI c1 c2 c3 c4 c5 c6 c7 c8 c9 c10 c11)
qed

text \<open>
  C4, amended: for every document in which the \<^verbatim>\<open>/Contents\<close> entry of every page
  resolves to a single stream without a filter, or to nothing, the substitution of
  "team-wiki.local" by "team-wiki.etc.com" completes and returns a document with the same
  number of pages. A page whose entry resolves to nothing is passed through unchanged;
  on every other page the content stream is replaced by the stream with every occurrence
  of the old byte string, found from the left, replaced by the new one, and nothing else
  of the page changes. That stream has no occurrence of the old byte string, and the
  number of occurrences of the new byte string in it is the number of occurrences of the
  old byte string in the original stream plus the number of occurrences of the new byte
  string already there.
\<close>

theorem substitution_counts:
  assumes "PdfReader w pdf_path = Inr doc"
      and "\<forall>i<length doc. contents (doc ! i) = ResolvesToNone \<or>
                          (\<exists>b. contents (doc ! i) = Resolves (DecodedStreamObject b))"
  shows "\<exists>out.
           replace_text_in_pdf w pdf_path ''team-wiki.local'' ''team-wiki.etc.com'' = Inr out \<and>
           length out = length doc \<and>
           (\<forall>i<length doc.
              (contents (doc ! i) = ResolvesToNone \<and> out ! i = doc ! i) \<or>
              (\<exists>b b'. contents (doc ! i) = Resolves (DecodedStreamObject b) \<and>
                       out ! i = (doc ! i)\<lparr>contents := Resolves (DecodedStreamObject b')\<rparr> \<and>
                       b' = bytes_replace b old_url new_url \<and>
                       occurrences old_url b' = 0 \<and>
                       occurrences new_url b' = occurrences old_url b + occurrences new_url b))"
proof -
  from replace_loop_total[OF assms(2)] obtain out where
    loop: "replace_loop ''team-wiki.local'' ''team-wiki.etc.com'' doc = Inr out"
    by blast
  with assms(1) have run:
    "replace_text_in_pdf w pdf_path ''team-wiki.local'' ''team-wiki.etc.com'' = Inr out"
    by (simp add: replace_text_in_pdf_def)
  from replace_loop_Inr[OF loop] have len: "length out = length doc"
    and pages: "\<forall>i<length doc.
       replace_in_page ''team-wiki.local'' ''team-wiki.etc.com'' (doc ! i) = Inr (out ! i)"
    by simp_all
  have repl: "bytes_replace b old_url new_url = replace_from old_url new_url b" for b
    by (simp add: bytes_replace_def old_url_not_Nil)
  have "\<forall>i<length doc.
            (contents (doc ! i) = ResolvesToNone \<and> out ! i = doc ! i) \<or>
            (\<exists>b b'. contents (doc ! i) = Resolves (DecodedStreamObject b) \<and>
                     out ! i = (doc ! i)\<lparr>contents := Resolves (DecodedStreamObject b')\<rparr> \<and>
                     b' = bytes_replace b old_url new_url \<and>
                     occurrences old_url b' = 0 \<and>
                     occurrences new_url b' = occurrences old_url b + occurrences new_url b)"
  proof (intro allI impI)
    fix i assume "i < length doc"
    with pages have
      "replace_in_page ''team-wiki.local'' ''team-wiki.etc.com'' (doc ! i) = Inr (out ! i)"
      by simp
    from replace_in_page_Inr[OF this]
    show "(contents (doc ! i) = ResolvesToNone \<and> out ! i = doc ! i) \<or>
          (\<exists>b b'. contents (doc ! i) = Resolves (DecodedStreamObject b) \<and>
                   out ! i = (doc ! i)\<lparr>contents := Resolves (DecodedStreamObject b')\<rparr> \<and>
                   b' = bytes_replace b old_url new_url \<and>
                   occurrences old_url b' = 0 \<and>
                   occurrences new_url b' = occurrences old_url b + occurrences new_url b)"
      unfolding utf8_old_url utf8_new_url
      using occ_old_replaced occ_new_replaced by (auto simp: repl)
  qed
  with run len show ?thesis by blast
qed

text \<open>
  The amended C4 on \<^verbatim>\<open>both.pdf\<close>, whose one page has a stream without a filter: the
  transform returns, the stream holds each string once before, and after the substitution
  none of the old one and two of the new one.
\<close>

theorem substitution_counts_witness:
  "PdfReader sample_world ''both.pdf'' = Inr [text_page both_stream] \<and>
   contents (text_page both_stream) = Resolves (DecodedStreamObject both_stream) \<and>
   replace_text_in_pdf sample_world ''both.pdf'' ''team-wiki.local'' ''team-wiki.etc.com'' =
     Inr [text_page both_replaced] \<and>
   both_replaced = bytes_replace both_stream old_url new_url \<and>
   occurrences old_url both_replaced = 0 \<and>
   occurrences new_url both_replaced =
     occurrences old_url both_stream + occurrences new_url both_stream \<and>
   occurrences new_url both_stream = 1"
proof -
  have rd: "PdfReader sample_world ''both.pdf'' = Inr [text_page both_stream]"
    by code_simp
  have one: "occurrences new_url both_stream = 1"
    by code_simp
  have cont: "contents (text_page b) = Resolves (DecodedStreamObject b)" for b
    by (simp add: text_page_def)
  have upd: "(text_page b)\<lparr>contents := Resolves (DecodedStreamObject b')\<rparr> = text_page b'"
    for b b' by (simp add: text_page_def)
  have ok: "\<forall>i<length [text_page both_stream].
      contents ([text_page both_stream] ! i) = ResolvesToNone \<or>
      (\<exists>b. contents ([text_page both_stream] ! i) = Resolves (DecodedStreamObject b))"
    by (simp add: cont)
  from substitution_counts[OF rd ok] obtain out where
    run: "replace_text_in_pdf sample_world ''both.pdf'' ''team-wiki.local''
            ''team-wiki.etc.com'' = Inr out" and
    len: "length out = length [text_page both_stream]" and
    pages: "\<forall>i<length [text_page both_stream].
          (contents ([text_page both_stream] ! i) = ResolvesToNone \<and>
           out ! i = [text_page both_stream] ! i) \<or>
          (\<exists>b b'. contents ([text_page both_stream] ! i) = Resolves (DecodedStreamObject b) \<and>
                   out ! i =
                     ([text_page both_stream] ! i)\<lparr>contents := Resolves (DecodedStreamObject b')\<rparr> \<and>
                   b' = bytes_replace b old_url new_url \<and>
                   occurrences old_url b' = 0 \<and>
                   occurrences new_url b' = occurrences old_url b + occurrences new_url b)"
    by blast
  from pages[rule_format, of 0] obtain b b' where
    b: "contents (text_page both_stream) = Resolves (DecodedStreamObject b)" and
    o0: "out ! 0 = (text_page both_stream)\<lparr>contents := Resolves (DecodedStreamObject b')\<rparr>" and
    facts: "b' = bytes_replace b old_url new_url" "occurrences old_url b' = 0"
      "occurrences new_url b' = occurrences old_url b + occurrences new_url b"
    by (auto simp: cont)
  from b have bb: "b = both_stream" by (simp add: cont)
  have computed: "bytes_replace both_stream old_url new_url = both_replaced"
    by code_simp
  from facts(1) bb computed have b': "b' = both_replaced" by simp
  from len obtain p where "out = [p]" by (cases out) auto
  with o0 b' have out: "out = [text_page both_replaced]" by (simp add: upd)
  from facts bb b' have
    "both_replaced = bytes_replace both_stream old_url new_url"
    "occurrences old_url both_replaced = 0"
    "occurrences new_url both_replaced =
       occurrences old_url both_stream + occurrences new_url both_stream"
    by simp_all
  with rd cont[of both_stream] run[unfolded out] one show ?thesis by (intro conjI)
qed

section \<open>The footer image\<close>

lemma footer_loop_raster:
  assumes "files w image_path = Some RasterImage"
      and "\<not> endswith (lower image_path) ''.svg''"
  shows "footer_loop w image_path ps =
           ([], Inr (map (\<lambda>p. p\<lparr>merged := merged p @ [footer_overlay image_path p]\<rparr>) ps))"
proof (induction ps)
  case Nil
  show ?case by simp
next
  case (Cons p ps)
  have draw: "try_draw w (Canvas (mediabox_width p, mediabox_height p)) image_path
                (mediabox_width p - 50) 30 30 =
              ([], \<lparr>cv_pagesize = (mediabox_width p, mediabox_height p),
                    cv_code = [\<lparr>drw_image = image_path, drw_x = mediabox_width p - 50 - 30,
                                drw_y = 30, drw_width = 30, drw_height = 30\<rparr>],
                    cv_pages = []\<rparr>)"
    using assms by (simp add: try_draw_def drawImage_def Canvas_def)
  have page2: "first_page (save \<lparr>cv_pagesize = (mediabox_width p, mediabox_height p),
                    cv_code = [\<lparr>drw_image = image_path, drw_x = mediabox_width p - 50 - 30,
                                drw_y = 30, drw_width = 30, drw_height = 30\<rparr>],
                    cv_pages = []\<rparr>) = Inr (footer_overlay image_path p)"
    by (simp add: first_page_def save_def showPage_def footer_overlay_def)
  show ?case
    using draw page2 Cons.IH by (simp add: merge_page_def)
qed

text \<open>
  C5: when the footer image is a raster image that reportlab can draw (and its name does
  not end in \<^verbatim>\<open>.svg\<close>), the footer transform gives, for every page of every document,
  that page with one overlay merged on top of it: the overlay has the page's mediabox width
  and height, and the image is drawn on it once, 30 by 30 points whatever its aspect
  ratio, with its lower-left corner at (page width - 50 - 30, 30). No warning is printed.
\<close>

theorem add_footer_image_raster:
  assumes "PdfReader w pdf_path = Inr doc"
      and "files w image_path = Some RasterImage"
      and "\<not> endswith (lower image_path) ''.svg''"
  shows "add_footer_image w pdf_path image_path =
           ([], Inr (map (\<lambda>p. p\<lparr>merged := merged p @ [footer_overlay image_path p]\<rparr>) doc))"
  using assms(1) footer_loop_raster[OF assms(2,3)] by (simp add: add_footer_image_def)

text \<open>
  C5 on the sample document (two pages of 612 by 792 points) with \<^verbatim>\<open>logo.png\<close>: on both
  pages the image lands at (532, 30).
\<close>

theorem add_footer_image_raster_witness:
  "PdfReader sample_world ''in.pdf'' = Inr sample_doc \<and>
   files sample_world ''logo.png'' = Some RasterImage \<and>
   \<not> endswith (lower ''logo.png'') ''.svg'' \<and>
   add_footer_image sample_world ''in.pdf'' ''logo.png'' =
     ([], Inr (map (\<lambda>p. p\<lparr>merged := merged p @ [footer_overlay ''logo.png'' p]\<rparr>) sample_doc)) \<and>
   map (\<lambda>p. map drw_x (ov_code (footer_overlay ''logo.png'' p))) sample_doc = [[532], [532]]"
proof -
  have img: "files sample_world ''logo.png'' = Some RasterImage"
    by (simp add: sample_world_def)
  have png: "\<not> endswith (lower ''logo.png'') ''.svg''"
    by code_simp
  have pos: "map (\<lambda>p. map drw_x (ov_code (footer_overlay ''logo.png'' p))) sample_doc
      = [[532], [532]]"
    by (simp add: footer_overlay_def sample_doc_def text_page_def)
  from add_footer_image_raster[OF sample_read img png] sample_read img png pos
  show ?thesis by simp
qed

section \<open>A footer image that is not drawn\<close>

text \<open>
  C6 does not hold of the code: for a path ending in \<^verbatim>\<open>.svg\<close> nothing is drawn, the
  canvas saved without a drawing holds no page, and \<^verbatim>\<open>footer_pdf.pages[0]\<close> raises
  \<^verbatim>\<open>IndexError\<close> on the first page of the document. With \<^verbatim>\<open>--footer-image logo.svg\<close>
  on the sample document the run prints the generic failure, exits with code 1 and writes
  no output file.
\<close>

theorem svg_footer_raises:
  "endswith (lower ''logo.svg'') ''.svg'' \<and>
   path_exists sample_world ''logo.svg'' \<and>
   add_footer_image sample_world ''in.pdf'' ''logo.svg'' =
     ([], Inl (IndexError ''sequence index out of range'')) \<and>
   stdout (main sample_world svg_footer_args) =
     [''Error processing PDF: sequence index out of range''] \<and>
   exit_code (main sample_world svg_footer_args) = 1 \<and>
   files (out_world (main sample_world svg_footer_args)) ''out.pdf'' = None"
proof -
  have c1: "endswith (lower ''logo.svg'') ''.svg''"
    by code_simp
  have c2: "path_exists sample_world ''logo.svg''"
    by code_simp
  have c3: "add_footer_image sample_world ''in.pdf'' ''logo.svg'' =
       ([], Inl (IndexError ''sequence index out of range''))"
    by code_simp
  have c4: "stdout (main sample_world svg_footer_args) =
       [''Error processing PDF: sequence index out of range'']"
    by code_simp
  have c5: "exit_code (main sample_world svg_footer_args) = 1"
    by code_simp
  have c6: "files (out_world (main sample_world svg_footer_args)) ''out.pdf'' = None"
    by code_simp
  show ?thesis
    by (intro conjI c1 c2 c3 c4 c5 c6)
qed

text \<open>
  C7 does not hold of the code: the exception of \<^verbatim>\<open>drawImage\<close> is caught and the
  warning is printed, but the canvas is then saved without a drawing and holds no page, so
  \<^verbatim>\<open>footer_pdf.pages[0]\<close> raises \<^verbatim>\<open>IndexError\<close> outside the \<^verbatim>\<open>try\<close> statement.
  With the unreadable image \<^verbatim>\<open>bad.png\<close> on the sample document the transform stops at
  the first page, and the run prints the warning and the generic failure, exits with
  code 1 and writes no output file.
\<close>

theorem draw_failure_aborts:
  "path_exists sample_world ''bad.png'' \<and>
   drawImage sample_world (Canvas (612, 792)) ''bad.png'' 532 30 30 30 =
     Inl (OSError ''Cannot open resource bad.png'') \<and>
   add_footer_image sample_world ''in.pdf'' ''bad.png'' =
     ([''Warning: Could not add footer image: Cannot open resource bad.png''],
      Inl (IndexError ''sequence index out of range'')) \<and>
   stdout (main sample_world bad_footer_args) =
     [''Warning: Could not add footer image: Cannot open resource bad.png'',
      ''Error processing PDF: sequence index out of range''] \<and>
   exit_code (main sample_world bad_footer_args) = 1 \<and>
   files (out_world (main sample_world bad_footer_args)) ''out.pdf'' = None"
proof -
  have c1: "path_exists sample_world ''bad.png''"
    by code_simp
  have c2: "drawImage sample_world (Canvas (612, 792)) ''bad.png'' 532 30 30 30 =
       Inl (OSError ''Cannot open resource bad.png'')"
    by code_simp
  have c3: "add_footer_image sample_world ''in.pdf'' ''bad.png'' =
       ([''Warning: Could not add footer image: Cannot open resource bad.png''],
        Inl (IndexError ''sequence index out of range''))"
    by code_simp
  have c4: "stdout (main sample_world bad_footer_args) =
       [''Warning: Could not add footer image: Cannot open resource bad.png'',
        ''Error processing PDF: sequence index out of range'']"
    by code_simp
  have c5: "exit_code (main sample_world bad_footer_args) = 1"
    by code_simp
  have c6: "files (out_world (main sample_world bad_footer_args)) ''out.pdf'' = None"
    by code_simp
  show ?thesis
    by (intro conjI c1 c2 c3 c4 c5 c6)
qed

section \<open>A malformed rotation argument\<close>

lemma split_on_not_Nil: "split_on sep s \<noteq> []"
  by (induction s) (auto split: list.splits)

lemma split_on_single: "split_on sep s = [t] \<Longrightarrow> s = t"
proof (induction s arbitrary: t)
  case Nil
  then show ?case by simp
next
  case (Cons c cs)
  show ?case
  proof (cases "c = sep")
    case True
    with Cons.prems split_on_not_Nil[of sep cs] show ?thesis by simp
  next
    case False
    with Cons.prems split_on_not_Nil[of sep cs] obtain h where
      "split_on sep cs = [h]" and "t = c # h"
      by (auto split: list.splits)
    with Cons.IH show ?thesis by simp
  qed
qed

lemma split_on_more:
  "split_on sep s = t # u # us \<Longrightarrow> \<exists>rest. s = t @ sep # rest \<and> split_on sep rest = u # us"
proof (induction s arbitrary: t)
  case Nil
  then show ?case by simp
next
  case (Cons c cs)
  show ?case
  proof (cases "c = sep")
    case True
    with Cons.prems have "t = []" and "split_on sep cs = u # us" by simp_all
    with True show ?thesis by simp
  next
    case False
    with Cons.prems obtain h where h: "split_on sep cs = h # u # us" and t: "t = c # h"
      by (auto split: list.splits)
    from Cons.IH[OF h] obtain rest where "cs = h @ sep # rest" and "split_on sep rest = u # us"
      by blast
    with t show ?thesis by simp
  qed
qed

lemma parse_rotation_item:
  assumes "parse_rotation e = Inr pa"
  shows "rotate_item e"
proof -
  from assms obtain p a where sp: "split_on CHR '':'' e = [p, a]"
    and lit: "int_literal a" "int_literal p"
    by (auto simp: parse_rotation_def int_literal_def split: list.splits sum.splits)
  from split_on_more[OF sp] obtain rest where e: "e = p @ CHR '':'' # rest"
    and r: "split_on CHR '':'' rest = [a]" by blast
  from split_on_single[OF r] have "rest = a" .
  with e lit show ?thesis by (simp add: rotate_item.item)
qed

lemma parse_loop_grammar:
  "parse_loop m (split_on CHR '','' s) = Inr m' \<Longrightarrow> rotate_grammar s"
proof (induction "split_on CHR '','' s" arbitrary: s m)
  case Nil
  then show ?case using split_on_not_Nil[of "CHR '',''" s] by simp
next
  case (Cons t ts)
  from Cons.hyps(2)[symmetric] Cons.prems obtain pa where
    item: "parse_rotation t = Inr pa" and
    rest: "parse_loop (m(fst pa \<mapsto> snd pa)) ts = Inr m'"
    by (auto split: sum.splits)
  show ?case
  proof (cases ts)
    case Nil
    with Cons.hyps(2) have "s = t" using split_on_single[of "CHR '',''" s t] by simp
    with parse_rotation_item[OF item] show ?thesis by (simp add: rotate_grammar.single)
  next
    case (Cons u us)
    with \<open>t # ts = split_on CHR '','' s\<close> have "split_on CHR '','' s = t # u # us" by simp
    from split_on_more[OF this] obtain r where s: "s = t @ CHR '','' # r"
      and r: "split_on CHR '','' r = u # us" by blast
    from r Cons have eq: "ts = split_on CHR '','' r" by simp
    from rest eq have "parse_loop (m(fst pa \<mapsto> snd pa)) (split_on CHR '','' r) = Inr m'"
      by simp
    from Cons.hyps(1)[OF eq this] have "rotate_grammar r" .
    with parse_rotation_item[OF item] s show ?thesis by (simp add: rotate_grammar.more)
  qed
qed

lemma parse_rotations_grammar: "parse_rotations spec = Inr m \<Longrightarrow> rotate_grammar spec"
  unfolding parse_rotations_def by (rule parse_loop_grammar)

lemma rotate_item_colon: "rotate_item e \<Longrightarrow> CHR '':'' \<in> set e"
  by (auto elim: rotate_item.cases)

lemma rotate_grammar_colon: "rotate_grammar s \<Longrightarrow> CHR '':'' \<in> set s"
  by (induction rule: rotate_grammar.induct) (auto dest: rotate_item_colon)

lemma not_grammar_empty: "\<not> rotate_grammar []"
  by (auto elim: rotate_grammar.cases rotate_item.cases)

text \<open>
  C8, as stated, fails: the empty string is not in the grammar, and
  \<^verbatim>\<open>if args.rotate:\<close> takes it for an option that was not given, so nothing is parsed
  and no error is raised. With \<^verbatim>\<open>--rotate ""\<close> and \<^verbatim>\<open>--replace-url\<close> the run exits
  with code 0 and writes the output file.
\<close>

theorem empty_rotate_counterexample:
  "\<not> rotate_grammar [] \<and> rotate empty_rotate_args = Some [] \<and>
   exit_code (main sample_world empty_rotate_args) = 0 \<and>
   files (out_world (main sample_world empty_rotate_args)) ''out.pdf'' =
     Some (PdfFile replaced_doc)"
proof -
  have "exit_code (main sample_world empty_rotate_args) = 0"
    by code_simp
  moreover have "files (out_world (main sample_world empty_rotate_args)) ''out.pdf'' =
     Some (PdfFile replaced_doc)"
    by code_simp
  moreover have "rotate empty_rotate_args = Some []"
    by (simp add: empty_rotate_args_def)
  ultimately show ?thesis using not_grammar_empty by simp
qed

text \<open>
  C8, amended: for every non-empty \<^verbatim>\<open>--rotate\<close> argument that is not in the grammar
  \<^verbatim>\<open>page:angle[,page:angle...]\<close> (page and angle integer literals as \<^verbatim>\<open>int\<close> reads
  them), the run exits with code 1 and leaves the file system as it was, so no output
  file is written; and when the input document can be read, parsing raises an error that
  only the handler of \<^verbatim>\<open>main\<close> catches, and the one line printed is the generic
  failure message with that error.
\<close>

theorem malformed_rotate_aborts:
  assumes "rotate a = Some spec" and "spec \<noteq> []" and "\<not> rotate_grammar spec"
  shows "exit_code (main w a) = 1 \<and> out_world (main w a) = w \<and>
         (\<forall>doc. PdfReader w (input_path a) = Inr doc \<longrightarrow>
            (\<exists>e. parse_rotations spec = Inl e \<and>
                 stdout (main w a) = [''Error processing PDF: '' @ error_str e]))"
proof -
  from assms(3) parse_rotations_grammar obtain e where e: "parse_rotations spec = Inl e"
    by (cases "parse_rotations spec") auto
  have step: "rotate_step w a writer = Inl e" for writer
    using assms(1,2) e by (simp add: rotate_step_def truthy_def)
  show ?thesis
  proof (cases "path_exists w (input_path a)")
    case False
    then show ?thesis by (auto simp: main_def PdfReader_def path_exists_def)
  next
    case True
    show ?thesis
    proof (cases "PdfReader w (input_path a)")
      case (Inl e')
      with True show ?thesis by (simp add: main_def try_body_def)
    next
      case (Inr doc)
      with True step e show ?thesis by (simp add: main_def try_body_def)
    qed
  qed
qed

text \<open>
  The amended C8 at \<^verbatim>\<open>--rotate 1-90\<close>, an entry without a colon: exit code 1, the
  file system untouched, and the unpacking error in the line printed.
\<close>

theorem malformed_rotate_aborts_witness:
  "\<not> rotate_grammar ''1-90'' \<and>
   exit_code (main sample_world (sample_args\<lparr>rotate := Some ''1-90''\<rparr>)) = 1 \<and>
   out_world (main sample_world (sample_args\<lparr>rotate := Some ''1-90''\<rparr>)) = sample_world \<and>
   stdout (main sample_world (sample_args\<lparr>rotate := Some ''1-90''\<rparr>)) =
     [''Error processing PDF: not enough values to unpack (expected 2, got 1)'']"
proof -
  have bad: "\<not> rotate_grammar ''1-90''"
    using rotate_grammar_colon[of "''1-90''"] by auto
  have rot: "rotate (sample_args\<lparr>rotate := Some ''1-90''\<rparr>) = Some ''1-90''" by simp
  have ne: "''1-90'' \<noteq> []" by simp
  have out: "stdout (main sample_world (sample_args\<lparr>rotate := Some ''1-90''\<rparr>)) =
     [''Error processing PDF: not enough values to unpack (expected 2, got 1)'']"
    by code_simp
  from malformed_rotate_aborts[OF rot ne bad, of sample_world] out bad
  show ?thesis by simp
qed

section \<open>A missing input file\<close>

text \<open>
  C9: for every run whose input path does not name an existing file, the one line printed
  is the error that names the path, the exit code is 1, and the file system is left as it
  was: no output file is created. The check comes before any file is opened.
\<close>

theorem missing_input_exits:
  assumes "\<not> path_exists w (input_path a)"
  shows "main w a =
           \<lparr>out_world = w, stdout = [''Error: Input file not found: '' @ input_path a],
            exit_code = 1\<rparr>"
  using assms by (simp add: main_def)

text \<open>C9 at the missing path \<^verbatim>\<open>nope.pdf\<close>.\<close>

theorem missing_input_exits_witness:
  "\<not> path_exists sample_world ''nope.pdf'' \<and>
   main sample_world (sample_args\<lparr>input_path := ''nope.pdf''\<rparr>) =
     \<lparr>out_world = sample_world, stdout = [''Error: Input file not found: nope.pdf''],
      exit_code = 1\<rparr>"
proof -
  have missing:
    "\<not> path_exists sample_world (input_path (sample_args\<lparr>input_path := ''nope.pdf''\<rparr>))"
    by (simp add: path_exists_def sample_world_def)
  from missing missing_input_exits[OF missing] show ?thesis by simp
qed

section \<open>A run without a transform\<close>

text \<open>
  C10: for every run in which the input file exists and none of \<^verbatim>\<open>--rotate\<close>,
  \<^verbatim>\<open>--replace-url\<close>, \<^verbatim>\<open>--footer-image\<close> is supplied, the exit code is 1 and no document
  is written: the file system is as before, or differs only in an empty file at the output
  path. When the input can be read and the output file can be opened, it is the write
  step that raises, on the bare reader, and the handler prints that error.
\<close>

theorem no_transform_never_writes:
  assumes "path_exists w (input_path a)"
      and "rotate a = None" and "replace_url a = None" and "footer_image a = None"
  shows "exit_code (main w a) = 1 \<and>
         (out_world (main w a) = w \<or>
          out_world (main w a) = w\<lparr>files := (files w)(output_path a \<mapsto> EmptyFile)\<rparr>) \<and>
         (\<forall>doc. PdfReader w (input_path a) = Inr doc \<and> can_create w (output_path a) \<longrightarrow>
            main w a =
              \<lparr>out_world = w\<lparr>files := (files w)(output_path a \<mapsto> EmptyFile)\<rparr>,
               stdout = [''Error processing PDF: '' @ error_str no_write_method],
               exit_code = 1\<rparr>)"
  using assms
  by (auto simp: main_def try_body_def rotate_step_def replace_step_def footer_step_def
        write_step_def truthy_def split: sum.splits)

text \<open>
  C10 on the sample document with no option: exit code 1, the attribute error printed,
  and an empty file left at \<^verbatim>\<open>out.pdf\<close>.
\<close>

theorem no_transform_never_writes_witness:
  "path_exists sample_world (input_path sample_args) \<and>
   rotate sample_args = None \<and> replace_url sample_args = None \<and>
   footer_image sample_args = None \<and>
   main sample_world sample_args =
     \<lparr>out_world = sample_world\<lparr>files := (files sample_world)(''out.pdf'' \<mapsto> EmptyFile)\<rparr>,
      stdout = [''Error processing PDF: '' @ error_str no_write_method],
      exit_code = 1\<rparr>"
proof -
  have ex: "path_exists sample_world (input_path sample_args)"
    by (simp add: path_exists_def sample_world_def sample_args_def)
  have none: "rotate sample_args = None" "replace_url sample_args = None"
    "footer_image sample_args = None"
    by (simp_all add: sample_args_def)
  have rd: "PdfReader sample_world (input_path sample_args) = Inr sample_doc"
    by (simp add: sample_args_def sample_read)
  have cr: "can_create sample_world (output_path sample_args)"
    by (simp add: sample_args_def sample_world_def)
  have path: "output_path sample_args = ''out.pdf''"
    by (simp add: sample_args_def)
  from no_transform_never_writes[OF ex none] rd cr
  have "main sample_world sample_args =
     \<lparr>out_world = sample_world\<lparr>files := (files sample_world)(output_path sample_args \<mapsto> EmptyFile)\<rparr>,
      stdout = [''Error processing PDF: '' @ error_str no_write_method],
      exit_code = 1\<rparr>"
    by blast
  with ex none path show ?thesis by simp
qed

end
